theory Spec2Isabelle
  imports Main
begin

section \<open>Data model (internal/ai/model.go)\<close>

text \<open>
  Go's \<open>error\<close> values that the program builds. \<open>fmt.Errorf\<close> with \<open>%w\<close> wraps an
  inner error; the wrapped error is kept as an argument. Errors raised by the standard
  library (network, JSON, scanner) are carried by their message.
\<close>

datatype error =
    NotFound string                 \<comment> \<open>\<open>provider '%s' not found\<close>\<close>
  | MarshalFailed string            \<comment> \<open>\<open>failed to marshal request body: %w\<close>\<close>
  | CreateRequestFailed string      \<comment> \<open>\<open>failed to create request: %w\<close>\<close>
  | RequestFailed int string        \<comment> \<open>\<open>request failed after %d retries: %w\<close>\<close>
  | ProviderError string string string  \<comment> \<open>\<open>ai.Error{Code, Message, Type}\<close>\<close>
  | HTTPError int string            \<comment> \<open>\<open>API error: %d %s\<close>\<close>
  | ParseFailed string              \<comment> \<open>\<open>failed to parse stream response: %w\<close>\<close>
  | ScanFailed string               \<comment> \<open>\<open>stream scanning error: %w\<close>\<close>
  | NilDereference                  \<comment> \<open>run-time panic: nil pointer dereference\<close>
  | OtherError string               \<comment> \<open>an error of some other provider implementation\<close>

record Message =
  Role :: string
  MsgContent :: string

record ChatRequest =
  Messages :: "Message list"
  Model :: string
  MaxTokens :: int
  Stream :: bool

record Usage =
  PromptTokens :: int
  CompletionTokens :: int
  TotalTokens :: int

record ChatResponse =
  RespID :: string
  RespModel :: string
  RespContent :: string
  RespUsage :: Usage

record StreamResponse =
  ID :: string
  Content :: string
  Done :: bool
  Error :: "error option"

record Config =
  APIKey :: string
  BaseURL :: string
  Timeout :: int       \<comment> \<open>\<open>time.Duration\<close>, in nanoseconds\<close>
  MaxRetries :: int

section \<open>Streaming decoder (internal/ai/provider/openai/chat.go)\<close>

record openAIDelta =
  DeltaRole :: string
  DeltaContent :: string

record openAIChoice =
  Index :: int
  Delta :: openAIDelta
  FinishReason :: "string option"

record openAIStreamResponse =
  StreamID :: string
  Choices :: "openAIChoice list"

text \<open>
  \<open>encoding/json\<close> is the standard library's: \<open>json.Unmarshal\<close> into an
  \<open>openAIStreamResponse\<close> is a parameter of the decoder, returning the decoding error's
  message or the decoded value.
\<close>

type_synonym unmarshal = "string \<Rightarrow> string + openAIStreamResponse"

text \<open>\<open>strings.HasPrefix\<close> and \<open>strings.TrimPrefix\<close>.\<close>

definition HasPrefix :: "string \<Rightarrow> string \<Rightarrow> bool" where
  "HasPrefix s p = (take (length p) s = p)"

definition TrimPrefix :: "string \<Rightarrow> string \<Rightarrow> string" where
  "TrimPrefix s p = (if HasPrefix s p then drop (length p) s else s)"

text \<open>
  The state of the goroutine started by \<open>ChatStream\<close>: what has been sent on
  \<open>responseChan\<close>, the variable \<open>responseID\<close>, how many lines \<open>scanner.Scan\<close> has
  handed out, and whether the goroutine has executed \<open>return\<close> inside the loop.
\<close>

record decoder =
  responseChan :: "StreamResponse list"
  responseID :: string
  scanned :: nat
  returned :: bool

definition send :: "StreamResponse \<Rightarrow> decoder \<Rightarrow> decoder" where
  "send chunk st = st\<lparr>responseChan := responseChan st @ [chunk]\<rparr>"

text \<open>One pass through the body of \<open>for scanner.Scan()\<close>, on the line \<open>scanner.Text()\<close>.\<close>

definition loopBody :: "unmarshal \<Rightarrow> decoder \<Rightarrow> string \<Rightarrow> decoder" where
  "loopBody unm st line =
     (if line = [] \<or> HasPrefix line '':'' then st
      else if HasPrefix line ''data: '' then
        (let data = TrimPrefix line ''data: '' in
         if data = ''[DONE]'' then
           (send \<lparr>ID = responseID st, Content = [], Done = True, Error = None\<rparr> st)
             \<lparr>returned := True\<rparr>
         else
           (case unm data of
              Inl err \<Rightarrow>
                (send \<lparr>ID = [], Content = [], Done = False,
                       Error = Some (ParseFailed err)\<rparr> st)\<lparr>returned := True\<rparr>
            | Inr streamResp \<Rightarrow>
                (let st1 = st\<lparr>responseID := StreamID streamResp\<rparr> in
                 case Choices streamResp of
                   [] \<Rightarrow> st1
                 | choice # _ \<Rightarrow>
                     (let content = DeltaContent (Delta choice);
                          done = (FinishReason choice \<noteq> None);
                          st2 = send \<lparr>ID = StreamID streamResp, Content = content,
                                      Done = done, Error = None\<rparr> st1
                      in if done then st2\<lparr>returned := True\<rparr> else st2))))
      else st)"

text \<open>
  The loop over the lines the scanner yields. A \<open>return\<close> in the body leaves the loop
  (and the goroutine) at once; the remaining lines are never scanned.
\<close>

fun scanLoop :: "unmarshal \<Rightarrow> decoder \<Rightarrow> string list \<Rightarrow> decoder" where
  "scanLoop unm st [] = st"
| "scanLoop unm st (line # rest) =
     (let st' = loopBody unm (st\<lparr>scanned := Suc (scanned st)\<rparr>) line
      in if returned st' then st' else scanLoop unm st' rest)"

definition initDecoder :: decoder where
  "initDecoder = \<lparr>responseChan = [], responseID = [], scanned = 0, returned = False\<rparr>"

text \<open>
  The response body as \<open>bufio.Scanner\<close> presents it: the lines for which \<open>Scan\<close>
  returns true, and then \<open>scanner.Err()\<close> (\<open>None\<close> at a clean end of input).
  \<open>streamGoroutine\<close> is the whole goroutine: everything sent on the channel before
  it is closed.
\<close>

definition streamGoroutine :: "unmarshal \<Rightarrow> string list \<Rightarrow> string option \<Rightarrow> StreamResponse list" where
  "streamGoroutine unm lines scanErr =
     (let st = scanLoop unm initDecoder lines in
      if returned st then responseChan st
      else (case scanErr of
              Some err \<Rightarrow> responseChan (send \<lparr>ID = [], Content = [], Done = False,
                                               Error = Some (ScanFailed err)\<rparr> st)
            | None \<Rightarrow> responseChan st))"

text \<open>A chunk is terminal when it is marked done or carries an error.\<close>

definition terminal :: "StreamResponse \<Rightarrow> bool" where
  "terminal chunk = (Done chunk \<or> Error chunk \<noteq> None)"

section \<open>Transport (internal/ai/provider/openai/client.go)\<close>

record Client =
  apiKey :: string
  baseURL :: string
  httpTimeout :: int      \<comment> \<open>\<open>httpClient.Timeout\<close>, in nanoseconds\<close>
  maxRetries :: int

definition Second :: int where
  "Second = 1000000000"

definition DefaultBaseURL :: string where
  "DefaultBaseURL = ''https://api.openai.com/v1''"

definition DefaultTimeout :: int where
  "DefaultTimeout = 30 * Second"

definition NewClient :: "Config \<Rightarrow> Client" where
  "NewClient config =
     (let baseURL0 = (if BaseURL config = [] then DefaultBaseURL else BaseURL config);
          timeout0 = (if Timeout config = 0 then DefaultTimeout else Timeout config);
          maxRetries0 = (if MaxRetries config = 0 then 3 else MaxRetries config)
      in \<lparr>apiKey = APIKey config, baseURL = baseURL0, httpTimeout = timeout0,
          maxRetries = maxRetries0\<rparr>)"

text \<open>
  An \<open>*http.Response\<close>: the status code and the bytes \<open>io.ReadAll\<close> yields from the
  body while it is open. \<open>http.Client.Do\<close> answers each call with an error and no
  response, or with a response and no error (the client sets no \<open>CheckRedirect\<close>); the
  answer to the call of loop round \<open>i\<close> is given by a function of \<open>i\<close>.
\<close>

record Response =
  StatusCode :: int
  Body :: string

datatype outcome = DoErr string | DoResp Response

text \<open>
  What one round of the retry loop did: the value of the loop variable \<open>i\<close>, whether
  \<open>resp.Body.Close()\<close> was called, and the argument of \<open>time.Sleep\<close> (in
  nanoseconds) when the round slept. The loop leaves \<open>resp\<close>, \<open>err\<close> and the
  state of the last body behind.
  The loop variable is a Go \<open>int\<close>; \<open>time.Duration(i+1) * time.Second\<close> stays
  inside 64 bits for every \<open>i\<close> below 9223372036, so it is written over the integers.
\<close>

record iteration =
  attempt :: int
  closedBody :: bool
  slept :: "int option"

record attempts =
  resp :: "Response option"
  err :: "string option"
  bodyClosed :: bool
  iterations :: "iteration list"

function retryLoop :: "(int \<Rightarrow> outcome) \<Rightarrow> int \<Rightarrow> int \<Rightarrow> attempts \<Rightarrow> attempts" where
  "retryLoop httpDo maxR i before =
     (if i \<le> maxR then
        (case httpDo i of
           DoResp r \<Rightarrow>
             if StatusCode r < 500 then
               \<lparr>resp = Some r, err = None, bodyClosed = False,
                iterations = [\<lparr>attempt = i, closedBody = False, slept = None\<rparr>]\<rparr>
             else if i = maxR then
               \<lparr>resp = Some r, err = None, bodyClosed = True,
                iterations = [\<lparr>attempt = i, closedBody = True, slept = None\<rparr>]\<rparr>
             else
               (let after = retryLoop httpDo maxR (i + 1)
                              \<lparr>resp = Some r, err = None, bodyClosed = True, iterations = []\<rparr>
                in after\<lparr>iterations :=
                     \<lparr>attempt = i, closedBody = True, slept = Some ((i + 1) * Second)\<rparr>
                       # iterations after\<rparr>)
         | DoErr e \<Rightarrow>
             if i = maxR then
               \<lparr>resp = None, err = Some e, bodyClosed = False,
                iterations = [\<lparr>attempt = i, closedBody = False, slept = None\<rparr>]\<rparr>
             else
               (let after = retryLoop httpDo maxR (i + 1)
                              \<lparr>resp = None, err = Some e, bodyClosed = False, iterations = []\<rparr>
                in after\<lparr>iterations :=
                     \<lparr>attempt = i, closedBody = False, slept = Some ((i + 1) * Second)\<rparr>
                       # iterations after\<rparr>))
      else before)"
  by pat_completeness auto
termination
  by (relation "measure (\<lambda>(httpDo, maxR, i, before). nat (maxR + 1 - i))") auto

declare retryLoop.simps [simp del]

text \<open>
  The surroundings of \<open>makeRequest\<close>: whether \<open>json.Marshal\<close> of the request body
  and \<open>http.NewRequestWithContext\<close> fail (with which message), the answers of
  \<open>http.Client.Do\<close>, and \<open>json.Unmarshal\<close> into the error envelope, which gives
  the envelope's code, message and type when the bytes decode.
\<close>

record transport =
  marshalErr :: "string option"
  newRequestErr :: "string option"
  httpDo :: "int \<Rightarrow> outcome"
  unmarshalError :: "string \<Rightarrow> (string \<times> string \<times> string) option"

text \<open>
  \<open>makeRequest\<close> returns the response or the error, and (for the properties below) the
  rounds of its retry loop. \<open>hasBody\<close> is \<open>body != nil\<close>. When the loop does not run
  at all, \<open>resp\<close> is still nil and \<open>resp.StatusCode\<close> panics. After the last round
  closed the body, \<open>io.ReadAll\<close> on it fails without data, and the error is dropped
  (\<open>body, _ := io.ReadAll(resp.Body)\<close>).
\<close>

definition makeRequest :: "Client \<Rightarrow> transport \<Rightarrow> bool \<Rightarrow> (error + Response) \<times> iteration list" where
  "makeRequest c env hasBody =
     (case (if hasBody then marshalErr env else None) of
        Some e \<Rightarrow> (Inl (MarshalFailed e), [])
      | None \<Rightarrow>
     (case newRequestErr env of
        Some e \<Rightarrow> (Inl (CreateRequestFailed e), [])
      | None \<Rightarrow>
     (let final = retryLoop (httpDo env) (maxRetries c) 0
                    \<lparr>resp = None, err = None, bodyClosed = False, iterations = []\<rparr>
      in case err final of
           Some e \<Rightarrow> (Inl (RequestFailed (maxRetries c) e), iterations final)
         | None \<Rightarrow>
        (case resp final of
           None \<Rightarrow> (Inl NilDereference, iterations final)
         | Some r \<Rightarrow>
             if StatusCode r \<ge> 400 then
               (let body = (if bodyClosed final then [] else Body r) in
                case unmarshalError env body of
                  Some (code, message, type) \<Rightarrow>
                    (Inl (ProviderError code message type), iterations final)
                | None \<Rightarrow> (Inl (HTTPError (StatusCode r) body), iterations final))
             else (Inr r, iterations final)))))"

text \<open>The loop's test for going on to another round, given that rounds remain.\<close>

definition retryable :: "outcome \<Rightarrow> bool" where
  "retryable out = (case out of DoErr e \<Rightarrow> True | DoResp r \<Rightarrow> StatusCode r \<ge> 500)"

definition isRequestFailed :: "error + Response \<Rightarrow> bool" where
  "isRequestFailed res = (case res of Inl (RequestFailed n e) \<Rightarrow> True | _ \<Rightarrow> False)"

section \<open>Service registry (internal/ai/service.go)\<close>

text \<open>
  The \<open>Provider\<close> interface: an implementation is its four methods. A streaming call
  gives an error, or the chunks its channel delivers until it is closed.
\<close>

record Provider =
  Chat :: "ChatRequest \<Rightarrow> error + ChatResponse"
  ChatStream :: "ChatRequest \<Rightarrow> error + StreamResponse list"
  GetName :: string
  GetAvailableModels :: "error + string list"

text \<open>
  What a call of the service does besides returning: the lines it hands to the logger
  (without the measured durations) and the provider methods it calls.
\<close>

datatype operation = OpChat | OpChatStream | OpGetAvailableModels

datatype logline =
    Registered string
  | SendingChat string string
  | ChatFailed string error
  | ChatCompleted string int
  | StartingStream string string
  | StreamRequestFailed string error
  | StreamError string error
  | StreamCompleted string nat

datatype effect = Printf logline | Invoke string operation

record Service =
  providers :: "string \<rightharpoonup> Provider"

definition NewService :: Service where
  "NewService = \<lparr>providers = Map.empty\<rparr>"

definition RegisterProvider :: "Service \<Rightarrow> string \<Rightarrow> Provider \<Rightarrow> Service \<times> effect list" where
  "RegisterProvider s name provider =
     (s\<lparr>providers := (providers s)(name \<mapsto> provider)\<rparr>, [Printf (Registered name)])"

definition GetProvider :: "Service \<Rightarrow> string \<Rightarrow> error + Provider" where
  "GetProvider s name =
     (case providers s name of None \<Rightarrow> Inl (NotFound name) | Some provider \<Rightarrow> Inr provider)"

definition Service_Chat :: "Service \<Rightarrow> string \<Rightarrow> ChatRequest \<Rightarrow> (error + ChatResponse) \<times> effect list" where
  "Service_Chat s providerName req =
     (case GetProvider s providerName of
        Inl e \<Rightarrow> (Inl e, [])
      | Inr provider \<Rightarrow>
          (let started = [Printf (SendingChat providerName (Model req)),
                          Invoke providerName OpChat]
           in case Chat provider req of
                Inl e \<Rightarrow> (Inl e, started @ [Printf (ChatFailed providerName e)])
              | Inr response \<Rightarrow>
                  (Inr response,
                   started @ [Printf (ChatCompleted providerName
                                        (TotalTokens (RespUsage response)))])))"

text \<open>
  The goroutine that copies \<open>stream\<close> to \<open>loggedStream\<close>: what it sends before it
  closes the channel, and what it logs.
\<close>

fun logStream :: "string \<Rightarrow> nat \<Rightarrow> StreamResponse list \<Rightarrow> StreamResponse list \<times> effect list" where
  "logStream providerName totalChunks [] = ([], [])"
| "logStream providerName totalChunks (chunk # rest) =
     (case Error chunk of
        Some e \<Rightarrow> ([chunk], [Printf (StreamError providerName e)])
      | None \<Rightarrow>
          if Done chunk then ([chunk], [Printf (StreamCompleted providerName totalChunks)])
          else (let (sent, logged) = logStream providerName (Suc totalChunks) rest
                in (chunk # sent, logged)))"

definition Service_ChatStream :: "Service \<Rightarrow> string \<Rightarrow> ChatRequest \<Rightarrow> (error + StreamResponse list) \<times> effect list" where
  "Service_ChatStream s providerName req =
     (case GetProvider s providerName of
        Inl e \<Rightarrow> (Inl e, [])
      | Inr provider \<Rightarrow>
          (let started = [Printf (StartingStream providerName (Model req)),
                          Invoke providerName OpChatStream]
           in case ChatStream provider req of
                Inl e \<Rightarrow> (Inl e, started @ [Printf (StreamRequestFailed providerName e)])
              | Inr stream \<Rightarrow>
                  (let (sent, logged) = logStream providerName 0 stream
                   in (Inr sent, started @ logged))))"

text \<open>A service after a series of registrations, oldest first.\<close>

fun registerAll :: "Service \<Rightarrow> (string \<times> Provider) list \<Rightarrow> Service" where
  "registerAll s [] = s"
| "registerAll s ((name, provider) # later) =
     registerAll (fst (RegisterProvider s name provider)) later"

section \<open>Reference notions and sample inputs\<close>

text \<open>
  A stream is well formed when every data frame is the \<open>[DONE]\<close> sentinel or decodes.
  \<open>lastSeenId\<close> is the id of the last decodable data frame among the given lines
  (empty when there is none).
\<close>

definition wellFormed :: "unmarshal \<Rightarrow> string list \<Rightarrow> bool" where
  "wellFormed unm ls =
     list_all (\<lambda>line. HasPrefix line ''data: '' \<longrightarrow>
                 TrimPrefix line ''data: '' = ''[DONE]'' \<or>
                 isl (unm (TrimPrefix line ''data: '')) = False) ls"

definition seenId :: "unmarshal \<Rightarrow> string \<Rightarrow> string \<Rightarrow> string" where
  "seenId unm rid line =
     (if HasPrefix line ''data: '' \<and> TrimPrefix line ''data: '' \<noteq> ''[DONE]'' then
        (case unm (TrimPrefix line ''data: '') of
           Inl e \<Rightarrow> rid
         | Inr streamResp \<Rightarrow> StreamID streamResp)
      else rid)"

definition lastSeenId :: "unmarshal \<Rightarrow> string list \<Rightarrow> string" where
  "lastSeenId unm ls = foldl (seenId unm) [] ls"

text \<open>
  The retry schedule, read off the rounds \<open>its\<close> of a loop that starts at \<open>i\<close>:
  round \<open>k\<close> is attempt \<open>i + k\<close>; another round follows exactly when the attempt
  failed in the network or was answered with a status of 500 or more and is not the
  last one allowed; and the sleep before that next round is \<open>i + k + 1\<close> seconds.
\<close>

definition scheduled :: "(int \<Rightarrow> outcome) \<Rightarrow> int \<Rightarrow> int \<Rightarrow> iteration list \<Rightarrow> bool" where
  "scheduled f m i its =
     list_all (\<lambda>k.
        attempt (its ! k) = i + int k \<and>
        (Suc k < length its \<longleftrightarrow> retryable (f (i + int k)) \<and> i + int k < m) \<and>
        slept (its ! k) = (if Suc k < length its then Some ((i + int k + 1) * Second) else None))
       [0..<length its]"

text \<open>
  A terminating frame: a data frame that is the \<open>[DONE]\<close> sentinel, or fails to
  decode, or decodes with a first choice whose finish reason is present.
\<close>

definition terminating :: "unmarshal \<Rightarrow> string \<Rightarrow> bool" where
  "terminating unm line =
     (HasPrefix line ''data: '' \<and>
      (TrimPrefix line ''data: '' = ''[DONE]'' \<or>
       (case unm (TrimPrefix line ''data: '') of
          Inl e \<Rightarrow> True
        | Inr streamResp \<Rightarrow>
            (case Choices streamResp of
               [] \<Rightarrow> False
             | choice # others \<Rightarrow> FinishReason choice \<noteq> None))))"

text \<open>A chunk sequence cut after its first terminal chunk.\<close>

fun upToFirstTerminal :: "StreamResponse list \<Rightarrow> StreamResponse list" where
  "upToFirstTerminal [] = []"
| "upToFirstTerminal (chunk # rest) =
     (if terminal chunk then [chunk] else chunk # upToFirstTerminal rest)"

text \<open>
  A decoder for the sample inputs: it knows the frame of the specification's streaming
  scenario and a frame without choices, and rejects everything else.
\<close>

definition helloFrame :: string where
  "helloFrame = ''{\"id\":\"x\",\"choices\":[{\"delta\":{\"content\":\"Hi\"},\"finish_reason\":null}]}''"

definition emptyFrame :: string where
  "emptyFrame = ''{\"id\":\"y\",\"choices\":[]}''"

definition helloValue :: openAIStreamResponse where
  "helloValue = \<lparr>StreamID = ''x'',
                  Choices = [\<lparr>Index = 0, Delta = \<lparr>DeltaRole = [], DeltaContent = ''Hi''\<rparr>,
                              FinishReason = None\<rparr>]\<rparr>"

definition sampleUnmarshal :: unmarshal where
  "sampleUnmarshal data =
     (if data = helloFrame then Inr helloValue
      else if data = emptyFrame then Inr \<lparr>StreamID = ''y'', Choices = []\<rparr>
      else Inl ''invalid character'')"

text \<open>
  A vendor that answers every attempt with status 500, one whose first attempt fails
  in the network, whose second is answered with 503 and whose third with 404, and one
  that is never reached. The sample transport decodes no error envelope.
\<close>

definition always500 :: "int \<Rightarrow> outcome" where
  "always500 i = DoResp \<lparr>StatusCode = 500, Body = ''Internal Server Error''\<rparr>"

definition flaky :: "int \<Rightarrow> outcome" where
  "flaky i =
     (if i = 0 then DoErr ''connection refused''
      else if i = 1 then DoResp \<lparr>StatusCode = 503, Body = ''busy''\<rparr>
      else DoResp \<lparr>StatusCode = 404, Body = ''no such model''\<rparr>)"

definition unreachable :: "int \<Rightarrow> outcome" where
  "unreachable i = DoErr ''dial tcp: i/o timeout''"

definition noEnvelope :: "string \<Rightarrow> (string \<times> string \<times> string) option" where
  "noEnvelope body = None"

definition sampleTransport :: "(int \<Rightarrow> outcome) \<Rightarrow> transport" where
  "sampleTransport answers =
     \<lparr>marshalErr = None, newRequestErr = None, httpDo = answers, unmarshalError = noEnvelope\<rparr>"

definition sampleConfig :: "int \<Rightarrow> Config" where
  "sampleConfig n = \<lparr>APIKey = ''sk-test'', BaseURL = [], Timeout = 0, MaxRetries = n\<rparr>"

text \<open>
  A request, a provider whose streaming call fails, and a provider whose channel is the
  decoder's on the scenario's body.
\<close>

definition sampleRequest :: ChatRequest where
  "sampleRequest =
     \<lparr>Messages = [\<lparr>Role = ''user'', MsgContent = ''hi''\<rparr>], Model = ''gpt-5'',
      MaxTokens = 0, Stream = False\<rparr>"

definition failingProvider :: Provider where
  "failingProvider =
     \<lparr>Chat = (\<lambda>req. Inl (OtherError ''unsupported'')),
      ChatStream = (\<lambda>req. Inl (HTTPError 401 ''unauthorized'')),
      GetName = ''failing'',
      GetAvailableModels = Inr []\<rparr>"

definition scenarioProvider :: Provider where
  "scenarioProvider =
     \<lparr>Chat = (\<lambda>req. Inl (OtherError ''unsupported'')),
      ChatStream = (\<lambda>req. Inr (streamGoroutine sampleUnmarshal
                     [''data: '' @ helloFrame, [], ''data: [DONE]'', []] None)),
      GetName = ''openai'',
      GetAvailableModels = Inr []\<rparr>"

section \<open>Properties of the streaming decoder\<close>

lemma loopBody_chan:
  "\<not> returned st \<Longrightarrow>
   \<exists>cs. responseChan (loopBody unm st line) = responseChan st @ cs \<and>
        (\<forall>c \<in> set cs. \<not> (Done c \<and> Error c \<noteq> None)) \<and>
        (if returned (loopBody unm st line)
         then \<exists>c. cs = [c] \<and> terminal c
         else filter terminal cs = [])"
  by (auto simp: loopBody_def send_def terminal_def Let_def split: sum.splits list.splits)

lemma loopBody_scanned: "scanned (loopBody unm st line) = scanned st"
  by (auto simp: loopBody_def send_def Let_def split: sum.splits list.splits)

lemma scanLoop_chan:
  "\<not> returned st \<Longrightarrow>
   \<exists>cs. responseChan (scanLoop unm st ls) = responseChan st @ cs \<and>
        (\<forall>c \<in> set cs. \<not> (Done c \<and> Error c \<noteq> None)) \<and>
        (if returned (scanLoop unm st ls)
         then cs \<noteq> [] \<and> terminal (last cs) \<and> filter terminal (butlast cs) = []
         else filter terminal cs = [])"
proof (induction ls arbitrary: st)
  case Nil
  then show ?case by simp
next
  case (Cons line rest)
  let ?st0 = "st\<lparr>scanned := Suc (scanned st)\<rparr>"
  let ?st' = "loopBody unm ?st0 line"
  from Cons.prems have nr: "\<not> returned ?st0" by simp
  obtain cs where cs: "responseChan ?st' = responseChan st @ cs"
    "\<forall>c \<in> set cs. \<not> (Done c \<and> Error c \<noteq> None)"
    "if returned ?st' then \<exists>c. cs = [c] \<and> terminal c else filter terminal cs = []"
    using loopBody_chan[OF nr, of unm line] by (auto simp del: ex_simps)
  show ?case
  proof (cases "returned ?st'")
    case True
    then show ?thesis using cs by (auto simp: Let_def)
  next
    case False
    from Cons.IH[OF False] obtain ds where ds:
      "responseChan (scanLoop unm ?st' rest) = responseChan ?st' @ ds"
      "\<forall>c \<in> set ds. \<not> (Done c \<and> Error c \<noteq> None)"
      "if returned (scanLoop unm ?st' rest)
         then ds \<noteq> [] \<and> terminal (last ds) \<and> filter terminal (butlast ds) = []
         else filter terminal ds = []"
      by blast
    have "scanLoop unm st (line # rest) = scanLoop unm ?st' rest"
      using False by (simp add: Let_def)
    then show ?thesis using cs ds False
      by (intro exI[of _ "cs @ ds"]) (auto simp: butlast_append)
  qed
qed

lemma loopBody_data:
  "loopBody unm st (''data: '' @ p) =
     (if p = ''[DONE]'' then
        (send \<lparr>ID = responseID st, Content = [], Done = True, Error = None\<rparr> st)\<lparr>returned := True\<rparr>
      else (case unm p of
              Inl e \<Rightarrow> (send \<lparr>ID = [], Content = [], Done = False,
                       Error = Some (ParseFailed e)\<rparr> st)\<lparr>returned := True\<rparr>
            | Inr streamResp \<Rightarrow>
                (let st1 = st\<lparr>responseID := StreamID streamResp\<rparr> in
                 case Choices streamResp of
                   [] \<Rightarrow> st1
                 | choice # _ \<Rightarrow>
                     (let content = DeltaContent (Delta choice);
                          done = (FinishReason choice \<noteq> None);
                          st2 = send \<lparr>ID = StreamID streamResp, Content = content,
                                      Done = done, Error = None\<rparr> st1
                      in if done then st2\<lparr>returned := True\<rparr> else st2))))"
  by (simp add: loopBody_def HasPrefix_def TrimPrefix_def Let_def)

lemma scanLoop_append:
  "\<not> returned st \<Longrightarrow>
   scanLoop unm st (xs @ ys) =
     (if returned (scanLoop unm st xs) then scanLoop unm st xs
      else scanLoop unm (scanLoop unm st xs) ys)"
  by (induction xs arbitrary: st) (auto simp: Let_def)

lemma scanLoop_scanned_all:
  "\<not> returned (scanLoop unm st ls) \<Longrightarrow> scanned (scanLoop unm st ls) = scanned st + length ls"
proof (induction ls arbitrary: st)
  case Nil show ?case by simp
next
  case (Cons line rest)
  then show ?case
    by (auto simp: Let_def loopBody_scanned split: if_splits)
qed

lemma scanLoop_init_chan:
  "(\<forall>c \<in> set (responseChan (scanLoop unm initDecoder ls)). \<not> (Done c \<and> Error c \<noteq> None)) \<and>
   (if returned (scanLoop unm initDecoder ls)
    then responseChan (scanLoop unm initDecoder ls) \<noteq> [] \<and>
         terminal (last (responseChan (scanLoop unm initDecoder ls))) \<and>
         filter terminal (butlast (responseChan (scanLoop unm initDecoder ls))) = []
    else filter terminal (responseChan (scanLoop unm initDecoder ls)) = [])"
  using scanLoop_chan[of initDecoder unm ls] by (auto simp: initDecoder_def)

lemma filter_butlast_last:
  "cs \<noteq> [] \<Longrightarrow> filter P (butlast cs) = [] \<Longrightarrow> P (last cs) \<Longrightarrow> filter P cs = [last cs]"
  by (induction cs) (auto split: if_splits)

lemma filter_butlast_empty: "filter P cs = [] \<Longrightarrow> filter P (butlast cs) = []"
  by (auto simp: filter_empty_conv dest: in_set_butlastD)

lemmas run_decoder = streamGoroutine_def initDecoder_def loopBody_def HasPrefix_def
  TrimPrefix_def send_def Let_def sampleUnmarshal_def helloFrame_def emptyFrame_def
  helloValue_def terminal_def

lemma not_data_prefix: "line = [] \<or> HasPrefix line '':'' \<Longrightarrow> \<not> HasPrefix line ''data: ''"
  by (cases line) (auto simp: HasPrefix_def)

lemma loopBody_returned_iff:
  "\<not> returned st \<Longrightarrow> returned (loopBody unm st line) = terminating unm line"
  using not_data_prefix[of line]
  by (auto simp: loopBody_def terminating_def send_def Let_def split: sum.splits list.splits)

lemma scanLoop_returned_iff:
  "\<not> returned st \<Longrightarrow> returned (scanLoop unm st ls) = list_ex (terminating unm) ls"
proof (induction ls arbitrary: st)
  case Nil
  then show ?case by simp
next
  case (Cons line rest)
  let ?st0 = "st\<lparr>scanned := Suc (scanned st)\<rparr>"
  from Cons.prems have nr: "\<not> returned ?st0" by simp
  note b = loopBody_returned_iff[OF nr, of unm line]
  show ?case
  proof (cases "terminating unm line")
    case True
    with b show ?thesis by (simp add: Let_def)
  next
    case False
    with b have n: "\<not> returned (loopBody unm ?st0 line)" by simp
    from Cons.IH[OF n] n False show ?thesis by (simp add: Let_def)
  qed
qed

text \<open>
  Claim C2, as the code has it. Whatever the body holds, the chunks sent on the channel
  contain at most one terminal chunk, it is the last chunk sent, and no chunk is both
  done and in error. There is no terminal chunk at all exactly when the body holds no
  terminating frame (no \<open>[DONE]\<close> frame, no frame that fails to decode, no frame whose
  first choice has a finish reason) and the scanner ends without an error; in every
  other case the sequence is not empty and its last chunk is terminal.
\<close>

theorem stream_at_most_one_terminal:
  "length (filter terminal (streamGoroutine unm ls scanErr)) \<le> 1 \<and>
   filter terminal (butlast (streamGoroutine unm ls scanErr)) = [] \<and>
   (\<forall>c \<in> set (streamGoroutine unm ls scanErr). \<not> (Done c \<and> Error c \<noteq> None)) \<and>
   (filter terminal (streamGoroutine unm ls scanErr) = [] \<longleftrightarrow>
      \<not> list_ex (terminating unm) ls \<and> scanErr = None) \<and>
   (list_ex (terminating unm) ls \<or> scanErr \<noteq> None \<longrightarrow>
      streamGoroutine unm ls scanErr \<noteq> [] \<and>
      terminal (last (streamGoroutine unm ls scanErr)))"
proof -
  let ?st = "scanLoop unm initDecoder ls"
  note inv = scanLoop_init_chan[of unm ls]
  have ni: "\<not> returned initDecoder" by (simp add: initDecoder_def)
  note fr = scanLoop_returned_iff[OF ni, of unm ls]
  show ?thesis
  proof (cases "returned ?st")
    case True
    with inv have ne: "responseChan ?st \<noteq> []" and t: "terminal (last (responseChan ?st))"
      and b: "filter terminal (butlast (responseChan ?st)) = []" by auto
    have "filter terminal (responseChan ?st) = [last (responseChan ?st)]"
      using filter_butlast_last[OF ne b t] .
    then show ?thesis using True inv b ne t fr by (simp add: streamGoroutine_def)
  next
    case False
    with inv have f: "filter terminal (responseChan ?st) = []" by auto
    show ?thesis
    proof (cases scanErr)
      case None
      then show ?thesis using False inv f filter_butlast_empty[OF f] fr
        by (simp add: streamGoroutine_def)
    next
      case (Some e)
      then show ?thesis using False inv f fr
        by (auto simp: streamGoroutine_def send_def terminal_def)
    qed
  qed
qed

text \<open>
  The property of C2 on the stream of the specification's scenario, and on a content
  frame followed by a clean end of input.
\<close>

theorem stream_at_most_one_terminal_witness:
  "streamGoroutine sampleUnmarshal [''data: '' @ helloFrame, [], ''data: [DONE]'', []] None =
     [\<lparr>ID = ''x'', Content = ''Hi'', Done = False, Error = None\<rparr>,
      \<lparr>ID = ''x'', Content = [], Done = True, Error = None\<rparr>] \<and>
   list_ex (terminating sampleUnmarshal) [''data: '' @ helloFrame, [], ''data: [DONE]'', []] \<and>
   length (filter terminal
     (streamGoroutine sampleUnmarshal [''data: '' @ helloFrame, [], ''data: [DONE]'', []] None)) \<le> 1 \<and>
   filter terminal (butlast
     (streamGoroutine sampleUnmarshal [''data: '' @ helloFrame, [], ''data: [DONE]'', []] None)) = [] \<and>
   list_all (\<lambda>c. \<not> (Done c \<and> Error c \<noteq> None))
     (streamGoroutine sampleUnmarshal [''data: '' @ helloFrame, [], ''data: [DONE]'', []] None) \<and>
   terminal (last
     (streamGoroutine sampleUnmarshal [''data: '' @ helloFrame, [], ''data: [DONE]'', []] None)) \<and>
   \<not> list_ex (terminating sampleUnmarshal) [''data: '' @ helloFrame, []] \<and>
   filter terminal (streamGoroutine sampleUnmarshal [''data: '' @ helloFrame, []] None) = []"
proof -
  have e: "streamGoroutine sampleUnmarshal [''data: '' @ helloFrame, [], ''data: [DONE]'', []] None =
     [\<lparr>ID = ''x'', Content = ''Hi'', Done = False, Error = None\<rparr>,
      \<lparr>ID = ''x'', Content = [], Done = True, Error = None\<rparr>]"
    by (simp add: run_decoder)
  have x: "list_ex (terminating sampleUnmarshal) [''data: '' @ helloFrame, [], ''data: [DONE]'', []]"
    by (simp add: terminating_def HasPrefix_def TrimPrefix_def)
  have n: "\<not> list_ex (terminating sampleUnmarshal) [''data: '' @ helloFrame, []]"
    by (simp add: terminating_def HasPrefix_def TrimPrefix_def sampleUnmarshal_def
        helloFrame_def helloValue_def)
  note t = stream_at_most_one_terminal[of sampleUnmarshal
      "[''data: '' @ helloFrame, [], ''data: [DONE]'', []]" None]
  note u = stream_at_most_one_terminal[of sampleUnmarshal "[''data: '' @ helloFrame, []]" None]
  show ?thesis using e x n t u by (simp only: list_all_iff) blast
qed

text \<open>
  Claim C2 as stated asks for exactly one terminal chunk in every stream. On an empty
  body that ends cleanly the goroutine sends nothing and closes the channel.
\<close>

theorem empty_body_no_terminal_chunk:
  "streamGoroutine sampleUnmarshal [] None = [] \<and>
   length (filter terminal (streamGoroutine sampleUnmarshal [] None)) = 0"
  by (simp add: run_decoder)

text \<open>
  Claim C3, as the code has it. When the loop ends without a \<open>return\<close>, a scanner
  error is sent as one final chunk with the error set, after the chunks sent so far, none
  of which is terminal; at a clean end of input nothing is added.
\<close>

theorem read_error_ends_stream:
  assumes "\<not> returned (scanLoop unm initDecoder ls)"
  shows "streamGoroutine unm ls (Some e) =
           responseChan (scanLoop unm initDecoder ls) @
             [\<lparr>ID = [], Content = [], Done = False, Error = Some (ScanFailed e)\<rparr>] \<and>
         streamGoroutine unm ls None = responseChan (scanLoop unm initDecoder ls) \<and>
         filter terminal (responseChan (scanLoop unm initDecoder ls)) = []"
  using assms scanLoop_init_chan[of unm ls]
  by (simp add: streamGoroutine_def send_def)

text \<open>
  The property of C3 on a body of one content frame, ending with and without a read error.
\<close>

theorem read_error_ends_stream_witness:
  "\<not> returned (scanLoop sampleUnmarshal initDecoder [''data: '' @ helloFrame]) \<and>
   streamGoroutine sampleUnmarshal [''data: '' @ helloFrame] (Some ''unexpected EOF'') =
     [\<lparr>ID = ''x'', Content = ''Hi'', Done = False, Error = None\<rparr>,
      \<lparr>ID = [], Content = [], Done = False, Error = Some (ScanFailed ''unexpected EOF'')\<rparr>] \<and>
   streamGoroutine sampleUnmarshal [''data: '' @ helloFrame] None =
     [\<lparr>ID = ''x'', Content = ''Hi'', Done = False, Error = None\<rparr>]"
proof -
  have a: "\<not> returned (scanLoop sampleUnmarshal initDecoder [''data: '' @ helloFrame])"
    by (simp add: run_decoder)
  have e: "responseChan (scanLoop sampleUnmarshal initDecoder [''data: '' @ helloFrame]) =
     [\<lparr>ID = ''x'', Content = ''Hi'', Done = False, Error = None\<rparr>]"
    by (simp add: run_decoder)
  show ?thesis using a e read_error_ends_stream[OF a, of "''unexpected EOF''"] by simp
qed

text \<open>
  Claim C3 as stated also covers a body that ends cleanly. A content frame followed by a
  clean end of input gives the content chunk alone, which is not terminal.
\<close>

theorem clean_end_without_terminal_chunk:
  "streamGoroutine sampleUnmarshal [''data: '' @ helloFrame, []] None =
     [\<lparr>ID = ''x'', Content = ''Hi'', Done = False, Error = None\<rparr>] \<and>
   \<not> terminal \<lparr>ID = ''x'', Content = ''Hi'', Done = False, Error = None\<rparr>"
  by (simp add: run_decoder)

lemma loopBody_rid: "responseID (loopBody unm st line) = seenId unm (responseID st) line"
  using not_data_prefix[of line]
  by (auto simp: loopBody_def seenId_def send_def Let_def split: sum.splits list.splits)

lemma scanLoop_scanned_ge: "scanned st \<le> scanned (scanLoop unm st ls)"
proof (induction ls arbitrary: st)
  case Nil show ?case by simp
next
  case (Cons line rest)
  show ?case using Cons.IH[of "loopBody unm (st\<lparr>scanned := Suc (scanned st)\<rparr>) line"]
    by (auto simp: Let_def loopBody_scanned)
qed

lemma scanLoop_rid:
  "responseID (scanLoop unm st ls) =
     foldl (seenId unm) (responseID st) (take (scanned (scanLoop unm st ls) - scanned st) ls)"
proof (induction ls arbitrary: st)
  case Nil show ?case by simp
next
  case (Cons line rest)
  let ?st' = "loopBody unm (st\<lparr>scanned := Suc (scanned st)\<rparr>) line"
  have sc: "scanned ?st' = Suc (scanned st)" by (simp add: loopBody_scanned)
  have rid: "responseID ?st' = seenId unm (responseID st) line" by (simp add: loopBody_rid)
  show ?case
  proof (cases "returned ?st'")
    case True
    then show ?thesis using sc rid by (simp add: Let_def)
  next
    case False
    have ge: "Suc (scanned st) \<le> scanned (scanLoop unm ?st' rest)"
      using scanLoop_scanned_ge[of ?st' unm rest] sc by simp
    then obtain k where k: "scanned (scanLoop unm ?st' rest) - scanned st = Suc k"
      "scanned (scanLoop unm ?st' rest) - Suc (scanned st) = k"
      by (metis Suc_diff_le diff_Suc_Suc)
    show ?thesis using False Cons.IH[of ?st'] sc rid k by (simp add: Let_def)
  qed
qed

lemma loopBody_done_last:
  assumes "returned (loopBody unm st line)" "\<not> returned st"
    and "HasPrefix line ''data: '' \<longrightarrow>
           TrimPrefix line ''data: '' = ''[DONE]'' \<or> isl (unm (TrimPrefix line ''data: '')) = False"
  shows "responseChan (loopBody unm st line) \<noteq> [] \<and>
         Done (last (responseChan (loopBody unm st line))) \<and>
         Error (last (responseChan (loopBody unm st line))) = None \<and>
         ID (last (responseChan (loopBody unm st line))) = responseID (loopBody unm st line)"
  using assms
  by (auto simp: loopBody_def send_def Let_def split: sum.splits list.splits if_splits)

lemma scanLoop_done_last:
  assumes "returned (scanLoop unm st ls)" "\<not> returned st" "wellFormed unm ls"
  shows "responseChan (scanLoop unm st ls) \<noteq> [] \<and>
         Done (last (responseChan (scanLoop unm st ls))) \<and>
         Error (last (responseChan (scanLoop unm st ls))) = None \<and>
         ID (last (responseChan (scanLoop unm st ls))) = responseID (scanLoop unm st ls)"
  using assms
proof (induction ls arbitrary: st)
  case Nil then show ?case by simp
next
  case (Cons line rest)
  let ?st0 = "st\<lparr>scanned := Suc (scanned st)\<rparr>"
  let ?st' = "loopBody unm ?st0 line"
  from Cons.prems have wf: "HasPrefix line ''data: '' \<longrightarrow>
           TrimPrefix line ''data: '' = ''[DONE]'' \<or> isl (unm (TrimPrefix line ''data: '')) = False"
    and wfr: "wellFormed unm rest" by (simp_all add: wellFormed_def)
  from Cons.prems have nr: "\<not> returned ?st0" by simp
  show ?case
  proof (cases "returned ?st'")
    case True
    from loopBody_done_last[OF True nr wf] True show ?thesis by (simp add: Let_def)
  next
    case False
    with Cons.prems have "returned (scanLoop unm ?st' rest)" by (simp add: Let_def)
    from Cons.IH[OF this False wfr] False show ?thesis by (simp add: Let_def)
  qed
qed

lemma scanLoop_reaches_done:
  "''data: [DONE]'' \<in> set ls \<Longrightarrow> returned (scanLoop unm st ls)"
proof (induction ls arbitrary: st)
  case Nil then show ?case by simp
next
  case (Cons line rest)
  show ?case
  proof (cases "line = ''data: [DONE]''")
    case True
    have "returned (loopBody unm (st\<lparr>scanned := Suc (scanned st)\<rparr>) ''data: [DONE]'')"
      using loopBody_data[of unm "st\<lparr>scanned := Suc (scanned st)\<rparr>" "''[DONE]''"] by simp
    then show ?thesis using True by (simp add: Let_def)
  next
    case False
    with Cons.prems have "''data: [DONE]'' \<in> set rest" by simp
    from Cons.IH[OF this] show ?thesis by (simp add: Let_def)
  qed
qed

text \<open>
  Claim C4. The scenario: a data frame that decodes to id \<open>x\<close>, delta content
  \<open>Hi\<close> and no finish reason, then \<open>data: [DONE]\<close>, gives exactly the two chunks.
  In general: on a well-formed stream that contains \<open>data: [DONE]\<close>, the last chunk
  sent is done, has no error, and carries the id of the last frame decoded among the
  lines that were scanned.
\<close>

theorem done_stream_last_chunk:
  "(p \<noteq> ''[DONE]'' \<and> unm p = Inr streamResp \<and> StreamID streamResp = ''x'' \<and>
    Choices streamResp = choice # others \<and> DeltaContent (Delta choice) = ''Hi'' \<and>
    FinishReason choice = None \<longrightarrow>
      streamGoroutine unm [''data: '' @ p, [], ''data: [DONE]'', []] scanErr =
        [\<lparr>ID = ''x'', Content = ''Hi'', Done = False, Error = None\<rparr>,
         \<lparr>ID = ''x'', Content = [], Done = True, Error = None\<rparr>]) \<and>
   (wellFormed unm ls \<and> ''data: [DONE]'' \<in> set ls \<longrightarrow>
      streamGoroutine unm ls scanErr \<noteq> [] \<and>
      Done (last (streamGoroutine unm ls scanErr)) \<and>
      Error (last (streamGoroutine unm ls scanErr)) = None \<and>
      ID (last (streamGoroutine unm ls scanErr)) =
        lastSeenId unm (take (scanned (scanLoop unm initDecoder ls)) ls))"
proof (intro conjI impI)
  assume a: "p \<noteq> ''[DONE]'' \<and> unm p = Inr streamResp \<and> StreamID streamResp = ''x'' \<and>
    Choices streamResp = choice # others \<and> DeltaContent (Delta choice) = ''Hi'' \<and>
    FinishReason choice = None"
  have blank: "\<And>st. loopBody unm st [] = st" by (simp add: loopBody_def)
  show "streamGoroutine unm [''data: '' @ p, [], ''data: [DONE]'', []] scanErr =
        [\<lparr>ID = ''x'', Content = ''Hi'', Done = False, Error = None\<rparr>,
         \<lparr>ID = ''x'', Content = [], Done = True, Error = None\<rparr>]"
    using a loopBody_data[of unm _ p] loopBody_data[of unm _ "''[DONE]''"]
    by (simp add: streamGoroutine_def initDecoder_def blank send_def Let_def)
next
  assume b: "wellFormed unm ls \<and> ''data: [DONE]'' \<in> set ls"
  let ?st = "scanLoop unm initDecoder ls"
  have r: "returned ?st" using b scanLoop_reaches_done by blast
  have ni: "\<not> returned initDecoder" by (simp add: initDecoder_def)
  note l = scanLoop_done_last[OF r ni] 
  have g: "streamGoroutine unm ls scanErr = responseChan ?st"
    using r by (simp add: streamGoroutine_def)
  have rid: "responseID ?st = lastSeenId unm (take (scanned ?st) ls)"
    using scanLoop_rid[of unm initDecoder ls] by (simp add: lastSeenId_def initDecoder_def)
  show "streamGoroutine unm ls scanErr \<noteq> []" using l b g by simp
  show "Done (last (streamGoroutine unm ls scanErr))" using l b g by simp
  show "Error (last (streamGoroutine unm ls scanErr)) = None" using l b g by simp
  show "ID (last (streamGoroutine unm ls scanErr)) =
        lastSeenId unm (take (scanned (scanLoop unm initDecoder ls)) ls)"
    using l b g rid by simp
qed

text \<open>
  The property of C4 on the scenario's body, decoded by the sample decoder.
\<close>

theorem done_stream_last_chunk_witness:
  "helloFrame \<noteq> ''[DONE]'' \<and> sampleUnmarshal helloFrame = Inr helloValue \<and>
   StreamID helloValue = ''x'' \<and> Choices helloValue = hd (Choices helloValue) # [] \<and>
   DeltaContent (Delta (hd (Choices helloValue))) = ''Hi'' \<and>
   FinishReason (hd (Choices helloValue)) = None \<and>
   wellFormed sampleUnmarshal [''data: '' @ helloFrame, [], ''data: [DONE]'', []] \<and>
   ''data: [DONE]'' \<in> set [''data: '' @ helloFrame, [], ''data: [DONE]'', []] \<and>
   streamGoroutine sampleUnmarshal [''data: '' @ helloFrame, [], ''data: [DONE]'', []] None =
     [\<lparr>ID = ''x'', Content = ''Hi'', Done = False, Error = None\<rparr>,
      \<lparr>ID = ''x'', Content = [], Done = True, Error = None\<rparr>] \<and>
   ID (last (streamGoroutine sampleUnmarshal [''data: '' @ helloFrame, [], ''data: [DONE]'', []] None)) =
     lastSeenId sampleUnmarshal
       (take (scanned (scanLoop sampleUnmarshal initDecoder
                         [''data: '' @ helloFrame, [], ''data: [DONE]'', []]))
             [''data: '' @ helloFrame, [], ''data: [DONE]'', []])"
proof -
  have h: "helloFrame \<noteq> ''[DONE]'' \<and> sampleUnmarshal helloFrame = Inr helloValue \<and>
   StreamID helloValue = ''x'' \<and> Choices helloValue = hd (Choices helloValue) # [] \<and>
   DeltaContent (Delta (hd (Choices helloValue))) = ''Hi'' \<and>
   FinishReason (hd (Choices helloValue)) = None"
    by (simp add: sampleUnmarshal_def helloFrame_def helloValue_def)
  have w: "wellFormed sampleUnmarshal [''data: '' @ helloFrame, [], ''data: [DONE]'', []] \<and>
   ''data: [DONE]'' \<in> set [''data: '' @ helloFrame, [], ''data: [DONE]'', []]"
    by (simp add: wellFormed_def sampleUnmarshal_def helloFrame_def HasPrefix_def TrimPrefix_def)
  note t = done_stream_last_chunk[of helloFrame sampleUnmarshal helloValue
        "hd (Choices helloValue)" "[]" None "[''data: '' @ helloFrame, [], ''data: [DONE]'', []]"]
  note s1 = conjunct1[OF t, THEN mp, OF h]
  note s2 = conjunct2[OF t, THEN mp, OF w]
  show ?thesis
    by (intro conjI) (use h w s1 s2 in blast)+
qed

text \<open>
  Claim C5. A data frame that the goroutine reaches and that fails to decode adds exactly
  one chunk, with the error set and neither id nor content, to the non-terminal chunks
  sent before; nothing is sent after it, whatever follows in the body, and the frame is
  the last line scanned.
\<close>

theorem malformed_frame_ends_stream:
  assumes "\<not> returned (scanLoop unm initDecoder pre)" and "p \<noteq> ''[DONE]''" and "unm p = Inl e"
  shows "streamGoroutine unm (pre @ (''data: '' @ p) # post) scanErr =
           responseChan (scanLoop unm initDecoder pre) @
             [\<lparr>ID = [], Content = [], Done = False, Error = Some (ParseFailed e)\<rparr>] \<and>
         filter terminal (responseChan (scanLoop unm initDecoder pre)) = [] \<and>
         scanned (scanLoop unm initDecoder (pre @ (''data: '' @ p) # post)) = length pre + 1"
proof -
  let ?st = "scanLoop unm initDecoder pre"
  let ?line = "''data: '' @ p"
  have ni: "\<not> returned initDecoder" by (simp add: initDecoder_def)
  have step: "scanLoop unm initDecoder (pre @ ?line # post) = scanLoop unm ?st (?line # post)"
    using scanLoop_append[OF ni, of unm pre "?line # post"] assms(1) by simp
  have body: "loopBody unm (?st\<lparr>scanned := Suc (scanned ?st)\<rparr>) ?line =
      (send \<lparr>ID = [], Content = [], Done = False, Error = Some (ParseFailed e)\<rparr>
         (?st\<lparr>scanned := Suc (scanned ?st)\<rparr>))\<lparr>returned := True\<rparr>"
    using assms(2,3) loopBody_data[of unm "?st\<lparr>scanned := Suc (scanned ?st)\<rparr>" p] by simp
  have fin: "scanLoop unm ?st (?line # post) =
      (send \<lparr>ID = [], Content = [], Done = False, Error = Some (ParseFailed e)\<rparr>
         (?st\<lparr>scanned := Suc (scanned ?st)\<rparr>))\<lparr>returned := True\<rparr>"
    by (simp only: scanLoop.simps Let_def body) simp
  have sc: "scanned ?st = length pre"
    using scanLoop_scanned_all[OF assms(1)] by (simp add: initDecoder_def)
  have nt: "filter terminal (responseChan ?st) = []"
    using scanLoop_init_chan[of unm pre] assms(1) by simp
  show ?thesis
    using nt sc by (simp only: step fin streamGoroutine_def Let_def) (simp add: send_def)
qed

text \<open>
  The property of C5 on a content frame, a malformed frame and a \<open>[DONE]\<close> frame.
\<close>

theorem malformed_frame_ends_stream_witness:
  "\<not> returned (scanLoop sampleUnmarshal initDecoder [''data: '' @ helloFrame]) \<and>
   ''{oops'' \<noteq> ''[DONE]'' \<and> sampleUnmarshal ''{oops'' = Inl ''invalid character'' \<and>
   streamGoroutine sampleUnmarshal
     ([''data: '' @ helloFrame] @ (''data: '' @ ''{oops'') # [''data: [DONE]'']) None =
     [\<lparr>ID = ''x'', Content = ''Hi'', Done = False, Error = None\<rparr>,
      \<lparr>ID = [], Content = [], Done = False, Error = Some (ParseFailed ''invalid character'')\<rparr>] \<and>
   scanned (scanLoop sampleUnmarshal initDecoder
     ([''data: '' @ helloFrame] @ (''data: '' @ ''{oops'') # [''data: [DONE]''])) = 2"
proof -
  have a: "\<not> returned (scanLoop sampleUnmarshal initDecoder [''data: '' @ helloFrame])"
    by (simp add: run_decoder)
  have b: "''{oops'' \<noteq> ''[DONE]''" by simp
  have c: "sampleUnmarshal ''{oops'' = Inl ''invalid character''"
    by (simp add: sampleUnmarshal_def helloFrame_def emptyFrame_def)
  have d: "responseChan (scanLoop sampleUnmarshal initDecoder [''data: '' @ helloFrame]) =
     [\<lparr>ID = ''x'', Content = ''Hi'', Done = False, Error = None\<rparr>]"
    by (simp add: run_decoder)
  show ?thesis
    using a b c d malformed_frame_ends_stream[OF a b c, of "[''data: [DONE]'']" None]
    by simp
qed

lemma loopBody_other: "\<not> HasPrefix line ''data: '' \<Longrightarrow> loopBody unm st line = st"
  by (simp add: loopBody_def)

lemma scanLoop_skips:
  "list_all (\<lambda>line. \<not> HasPrefix line ''data: '') mid \<Longrightarrow> \<not> returned st \<Longrightarrow>
   scanLoop unm st mid = st\<lparr>scanned := scanned st + length mid\<rparr>"
proof (induction mid arbitrary: st)
  case Nil
  then show ?case by simp
next
  case (Cons line rest)
  from Cons.prems have b: "loopBody unm (st\<lparr>scanned := Suc (scanned st)\<rparr>) line =
      st\<lparr>scanned := Suc (scanned st)\<rparr>" by (simp add: loopBody_other)
  from Cons.prems have r: "list_all (\<lambda>line. \<not> HasPrefix line ''data: '') rest"
    and n: "\<not> returned (st\<lparr>scanned := Suc (scanned st)\<rparr>)" by simp_all
  from Cons.IH[OF r n] b n show ?case by (simp add: Let_def)
qed

text \<open>
  Claim C9. A data frame that decodes with an empty \<open>choices\<close> list sends no chunk and
  does not end the loop; it only sets \<open>responseID\<close> to the frame's id. The loop goes on
  with the lines that follow, and when the next data frame (after any blank, comment or
  other lines) is \<open>data: [DONE]\<close>, the done chunk carries that id.
\<close>

theorem empty_choices_frame_skipped:
  assumes "\<not> returned (scanLoop unm initDecoder pre)" and "p \<noteq> ''[DONE]''"
    and "unm p = Inr streamResp" and "Choices streamResp = []"
    and "list_all (\<lambda>line. \<not> HasPrefix line ''data: '') mid"
  shows "scanLoop unm initDecoder (pre @ [''data: '' @ p]) =
           (scanLoop unm initDecoder pre)
             \<lparr>responseID := StreamID streamResp, scanned := length pre + 1\<rparr> \<and>
         scanLoop unm initDecoder (pre @ (''data: '' @ p) # post) =
           scanLoop unm (scanLoop unm initDecoder (pre @ [''data: '' @ p])) post \<and>
         streamGoroutine unm (pre @ (''data: '' @ p) # mid @ ''data: [DONE]'' # post) scanErr =
           responseChan (scanLoop unm initDecoder pre) @
             [\<lparr>ID = StreamID streamResp, Content = [], Done = True, Error = None\<rparr>]"
proof -
  let ?st = "scanLoop unm initDecoder pre"
  let ?line = "''data: '' @ p"
  let ?st1 = "?st\<lparr>responseID := StreamID streamResp, scanned := length pre + 1\<rparr>"
  let ?st2 = "?st1\<lparr>scanned := scanned ?st1 + length mid\<rparr>"
  have ni: "\<not> returned initDecoder" by (simp add: initDecoder_def)
  have sc: "scanned ?st = length pre"
    using scanLoop_scanned_all[OF assms(1)] by (simp add: initDecoder_def)
  have body: "loopBody unm (?st\<lparr>scanned := Suc (scanned ?st)\<rparr>) ?line = ?st1"
    using assms(2,3,4) sc loopBody_data[of unm "?st\<lparr>scanned := Suc (scanned ?st)\<rparr>" p]
    by simp
  have nr1: "\<not> returned ?st1" using assms(1) by simp
  have nr2: "\<not> returned ?st2" using assms(1) by simp
  have one: "scanLoop unm ?st [?line] = ?st1"
    using nr1 by (simp only: scanLoop.simps Let_def body) simp
  have more: "scanLoop unm ?st (?line # rest) = scanLoop unm ?st1 rest" for rest
    using nr1 by (simp only: scanLoop.simps Let_def body) simp
  have a: "scanLoop unm initDecoder (pre @ [?line]) = ?st1"
    using scanLoop_append[OF ni, of unm pre "[?line]"] assms(1) one by simp
  have b: "scanLoop unm initDecoder (pre @ ?line # rest) = scanLoop unm ?st1 rest" for rest
    using scanLoop_append[OF ni, of unm pre "?line # rest"] assms(1) more[of rest] by simp
  have skip: "scanLoop unm ?st1 mid = ?st2"
    using scanLoop_skips[OF assms(5) nr1] .
  have m: "scanLoop unm ?st1 (mid @ rest) = scanLoop unm ?st2 rest" for rest
    using scanLoop_append[OF nr1, of unm mid rest] nr2 by (simp only: skip) simp
  have dn: "loopBody unm (?st2\<lparr>scanned := Suc (scanned ?st2)\<rparr>) ''data: [DONE]'' =
      (send \<lparr>ID = StreamID streamResp, Content = [], Done = True, Error = None\<rparr>
         (?st2\<lparr>scanned := Suc (scanned ?st2)\<rparr>))\<lparr>returned := True\<rparr>"
    using loopBody_data[of unm "?st2\<lparr>scanned := Suc (scanned ?st2)\<rparr>" "''[DONE]''"] by simp
  have c: "scanLoop unm ?st2 (''data: [DONE]'' # post) =
      (send \<lparr>ID = StreamID streamResp, Content = [], Done = True, Error = None\<rparr>
         (?st2\<lparr>scanned := Suc (scanned ?st2)\<rparr>))\<lparr>returned := True\<rparr>"
    by (simp only: scanLoop.simps Let_def dn) simp
  have g: "streamGoroutine unm (pre @ ?line # mid @ ''data: [DONE]'' # post) scanErr =
           responseChan ?st @ [\<lparr>ID = StreamID streamResp, Content = [], Done = True, Error = None\<rparr>]"
    by (simp only: streamGoroutine_def Let_def b m c) (simp add: send_def)
  show ?thesis using b[of post] g by (simp only: a)
qed

text \<open>
  The property of C9 on a content frame, a frame without choices and a \<open>[DONE]\<close> frame,
  each followed by a blank line.
\<close>

theorem empty_choices_frame_skipped_witness:
  "\<not> returned (scanLoop sampleUnmarshal initDecoder [''data: '' @ helloFrame, []]) \<and>
   emptyFrame \<noteq> ''[DONE]'' \<and>
   sampleUnmarshal emptyFrame = Inr \<lparr>StreamID = ''y'', Choices = []\<rparr> \<and>
   Choices \<lparr>StreamID = ''y'', Choices = []\<rparr> = [] \<and>
   list_all (\<lambda>line. \<not> HasPrefix line ''data: '') [[]] \<and>
   streamGoroutine sampleUnmarshal
     ([''data: '' @ helloFrame, []] @ (''data: '' @ emptyFrame) # [[]] @ ''data: [DONE]'' # [[]]) None =
     [\<lparr>ID = ''x'', Content = ''Hi'', Done = False, Error = None\<rparr>,
      \<lparr>ID = ''y'', Content = [], Done = True, Error = None\<rparr>]"
proof -
  have a: "\<not> returned (scanLoop sampleUnmarshal initDecoder [''data: '' @ helloFrame, []])"
    by (simp add: run_decoder)
  have b: "emptyFrame \<noteq> ''[DONE]''" by (simp add: emptyFrame_def)
  have c: "sampleUnmarshal emptyFrame = Inr \<lparr>StreamID = ''y'', Choices = []\<rparr>"
    by (simp add: sampleUnmarshal_def helloFrame_def emptyFrame_def)
  have d: "Choices \<lparr>StreamID = ''y'', Choices = []\<rparr> = []" by simp
  have m: "list_all (\<lambda>line. \<not> HasPrefix line ''data: '') [[]]" by (simp add: HasPrefix_def)
  have e: "responseChan (scanLoop sampleUnmarshal initDecoder [''data: '' @ helloFrame, []]) =
     [\<lparr>ID = ''x'', Content = ''Hi'', Done = False, Error = None\<rparr>]"
    by (simp add: run_decoder)
  note t = empty_choices_frame_skipped[OF a b c d m, of "[[]]" None, THEN conjunct2, THEN conjunct2]
  show ?thesis using a b c m e t by simp
qed

section \<open>Properties of the transport\<close>

lemma scheduled_iff:
  "scheduled f m i its \<longleftrightarrow>
     (\<forall>k < length its.
        attempt (its ! k) = i + int k \<and>
        (Suc k < length its \<longleftrightarrow> retryable (f (i + int k)) \<and> i + int k < m) \<and>
        slept (its ! k) = (if Suc k < length its then Some ((i + int k + 1) * Second) else None))"
  unfolding scheduled_def list_all_iff by (simp only: set_upt Ball_def atLeastLessThan_iff) auto

lemma scheduled_single:
  "\<not> (retryable (f i) \<and> i < m) \<Longrightarrow>
   scheduled f m i [\<lparr>attempt = i, closedBody = cb, slept = None\<rparr>]"
  by (simp add: scheduled_iff)

lemma scheduled_Cons:
  assumes "scheduled f m (i + 1) its" "its \<noteq> []" "retryable (f i)" "i < m"
  shows "scheduled f m i (\<lparr>attempt = i, closedBody = cb, slept = Some ((i + 1) * Second)\<rparr> # its)"
  unfolding scheduled_iff
proof (intro allI impI)
  fix k assume k: "k < length (\<lparr>attempt = i, closedBody = cb, slept = Some ((i + 1) * Second)\<rparr> # its)"
  show "attempt ((\<lparr>attempt = i, closedBody = cb, slept = Some ((i + 1) * Second)\<rparr> # its) ! k) = i + int k \<and>
       (Suc k < length (\<lparr>attempt = i, closedBody = cb, slept = Some ((i + 1) * Second)\<rparr> # its) \<longleftrightarrow>
          retryable (f (i + int k)) \<and> i + int k < m) \<and>
       slept ((\<lparr>attempt = i, closedBody = cb, slept = Some ((i + 1) * Second)\<rparr> # its) ! k) =
         (if Suc k < length (\<lparr>attempt = i, closedBody = cb, slept = Some ((i + 1) * Second)\<rparr> # its)
          then Some ((i + int k + 1) * Second) else None)"
  proof (cases k)
    case 0
    then show ?thesis using assms(2,3,4) by (cases its) simp_all
  next
    case (Suc j)
    with k have j: "j < length its" by simp
    have e: "i + 1 + int j = i + int (Suc j)" by simp
    from assms(1) j have
      "attempt (its ! j) = i + 1 + int j \<and>
       (Suc j < length its \<longleftrightarrow> retryable (f (i + 1 + int j)) \<and> i + 1 + int j < m) \<and>
       slept (its ! j) = (if Suc j < length its then Some ((i + 1 + int j + 1) * Second) else None)"
      unfolding scheduled_iff by blast
    then show ?thesis using Suc by (simp only: e nth_Cons_Suc length_Cons Suc_less_eq) 
  qed
qed

lemma retryLoop_scheduled:
  "i \<le> m \<Longrightarrow> iterations (retryLoop f m i b) \<noteq> [] \<and> scheduled f m i (iterations (retryLoop f m i b))"
proof (induction f m i b rule: retryLoop.induct)
  case (1 f m i b)
  show ?case
  proof (cases "f i")
    case (DoErr e)
    show ?thesis
    proof (cases "i = m")
      case True
      show ?thesis unfolding retryLoop.simps[of f m i b] using True DoErr 1(3)
        by (simp add: scheduled_single)
    next
      case False
      with 1(3) have lt: "i < m" "i + 1 \<le> m" by simp_all
      have r: "retryable (f i)" using DoErr by (simp add: retryable_def)
      note ih = 1(1)[OF 1(3) DoErr False lt(2)]
      show ?thesis unfolding retryLoop.simps[of f m i b]
        using DoErr False 1(3) ih scheduled_Cons[OF conjunct2[OF ih] conjunct1[OF ih] r lt(1)]
        by (simp add: Let_def)
    qed
  next
    case (DoResp r)
    show ?thesis
    proof (cases "StatusCode r < 500")
      case True
      then have "\<not> retryable (f i)" using DoResp by (simp add: retryable_def)
      then show ?thesis unfolding retryLoop.simps[of f m i b] using DoResp True 1(3)
        by (simp add: scheduled_single)
    next
      case ge: False
      have rt: "retryable (f i)" using DoResp ge by (simp add: retryable_def)
      show ?thesis
      proof (cases "i = m")
        case True
        show ?thesis unfolding retryLoop.simps[of f m i b] using True DoResp ge 1(3)
          by (simp add: scheduled_single)
      next
        case False
        with 1(3) have lt: "i < m" "i + 1 \<le> m" by simp_all
        note ih = 1(2)[OF 1(3) DoResp ge False lt(2)]
        show ?thesis unfolding retryLoop.simps[of f m i b]
          using DoResp ge False 1(3) ih scheduled_Cons[OF conjunct2[OF ih] conjunct1[OF ih] rt lt(1)]
          by (simp add: Let_def)
      qed
    qed
  qed
qed

lemma retryLoop_skipped: "\<not> i \<le> m \<Longrightarrow> retryLoop f m i b = b"
  by (simp add: retryLoop.simps[of f m i b])

lemma retryLoop_err:
  "i \<le> m \<Longrightarrow> err (retryLoop f m i b) = Some e \<Longrightarrow> f m = DoErr e"
proof (induction f m i b rule: retryLoop.induct)
  case (1 f m i b)
  show ?case
  proof (cases "f i")
    case (DoErr e')
    show ?thesis
    proof (cases "i = m")
      case True
      from 1(4) show ?thesis unfolding retryLoop.simps[of f m i b] using True DoErr 1(3)
        by simp
    next
      case False
      with 1(3) have lt: "i + 1 \<le> m" by simp
      from 1(4) have "err (retryLoop f m (i + 1)
          \<lparr>resp = None, err = Some e', bodyClosed = False, iterations = []\<rparr>) = Some e"
        unfolding retryLoop.simps[of f m i b] using DoErr False 1(3) by (simp add: Let_def)
      from 1(1)[OF 1(3) DoErr False lt this] show ?thesis .
    qed
  next
    case (DoResp r)
    show ?thesis
    proof (cases "StatusCode r < 500 \<or> i = m")
      case True
      from 1(4) show ?thesis unfolding retryLoop.simps[of f m i b] using True DoResp 1(3)
        by (auto split: if_splits)
    next
      case False
      with 1(3) have lt: "i + 1 \<le> m" and ge: "\<not> StatusCode r < 500" and ne: "i \<noteq> m" by simp_all
      from 1(4) have "err (retryLoop f m (i + 1)
          \<lparr>resp = Some r, err = None, bodyClosed = True, iterations = []\<rparr>) = Some e"
        unfolding retryLoop.simps[of f m i b] using DoResp ge ne 1(3) by (simp add: Let_def)
      from 1(2)[OF 1(3) DoResp ge ne lt this] show ?thesis .
    qed
  qed
qed

lemma makeRequest_RequestFailed:
  assumes "fst (makeRequest c env hasBody) = Inl (RequestFailed n e)"
  shows "n = maxRetries c \<and> httpDo env (maxRetries c) = DoErr e"
proof -
  let ?b = "\<lparr>resp = None, err = None, bodyClosed = False, iterations = []\<rparr>"
  let ?fin = "retryLoop (httpDo env) (maxRetries c) 0 ?b"
  from assms have e: "err ?fin = Some e" and n: "n = maxRetries c"
    by (auto simp: makeRequest_def Let_def split: option.splits if_splits prod.splits)
  have "0 \<le> maxRetries c"
  proof (rule ccontr)
    assume "\<not> 0 \<le> maxRetries c"
    then have "?fin = ?b" by (rule retryLoop_skipped)
    with e show False by simp
  qed
  from retryLoop_err[OF this e] n show ?thesis by simp
qed

lemma three_attempts_500:
  assumes "f 0 = DoResp r0" "f 1 = DoResp r1" "f 2 = DoResp r2"
    "StatusCode r0 = 500" "StatusCode r1 = 500" "StatusCode r2 = 500"
  shows "retryLoop f 2 0 b =
     \<lparr>resp = Some r2, err = None, bodyClosed = True,
      iterations = [\<lparr>attempt = 0, closedBody = True, slept = Some (1 * Second)\<rparr>,
                    \<lparr>attempt = 1, closedBody = True, slept = Some (2 * Second)\<rparr>,
                    \<lparr>attempt = 2, closedBody = True, slept = None\<rparr>]\<rparr>"
proof -
  have s2: "retryLoop f 2 2 b' =
      \<lparr>resp = Some r2, err = None, bodyClosed = True,
       iterations = [\<lparr>attempt = 2, closedBody = True, slept = None\<rparr>]\<rparr>" for b'
    unfolding retryLoop.simps[of f 2 2 b'] using assms by simp
  have s1: "retryLoop f 2 1 b' =
      \<lparr>resp = Some r2, err = None, bodyClosed = True,
       iterations = [\<lparr>attempt = 1, closedBody = True, slept = Some (2 * Second)\<rparr>,
                     \<lparr>attempt = 2, closedBody = True, slept = None\<rparr>]\<rparr>" for b'
    unfolding retryLoop.simps[of f 2 1 b'] using assms s2 by (simp add: Let_def)
  show ?thesis
    unfolding retryLoop.simps[of f 2 0 b] using assms s1 by (simp add: Let_def)
qed

lemma always500_run:
  "makeRequest (NewClient (sampleConfig 2)) (sampleTransport always500) True =
     (Inl (HTTPError 500 []),
      [\<lparr>attempt = 0, closedBody = True, slept = Some (1 * Second)\<rparr>,
       \<lparr>attempt = 1, closedBody = True, slept = Some (2 * Second)\<rparr>,
       \<lparr>attempt = 2, closedBody = True, slept = None\<rparr>])"
  by (simp add: makeRequest_def NewClient_def sampleConfig_def sampleTransport_def always500_def
      noEnvelope_def retryLoop.simps Let_def)

lemma flaky_run:
  "makeRequest (NewClient (sampleConfig 0)) (sampleTransport flaky) True =
     (Inl (HTTPError 404 ''no such model''),
      [\<lparr>attempt = 0, closedBody = False, slept = Some (1 * Second)\<rparr>,
       \<lparr>attempt = 1, closedBody = True, slept = Some (2 * Second)\<rparr>,
       \<lparr>attempt = 2, closedBody = False, slept = None\<rparr>])"
  by (simp add: makeRequest_def NewClient_def sampleConfig_def sampleTransport_def flaky_def
      noEnvelope_def retryLoop.simps Let_def)

text \<open>
  Claim C1, as the code has it. With \<open>maxRetries = 2\<close> and a vendor that answers every
  attempt with status 500, \<open>makeRequest\<close> makes the three attempts 0, 1 and 2, and
  fails with the error built from the last response: the provider error when the bytes
  read from its body decode as an error envelope, the \<open>API error\<close> with status 500
  otherwise. It is not the \<open>request failed after ... retries\<close> error: that one is
  returned only when the last allowed attempt itself failed in the network, and wraps
  that attempt's error.
\<close>

theorem always_500_three_attempts:
  "(maxRetries c = 2 \<and> (hasBody \<longrightarrow> marshalErr env = None) \<and> newRequestErr env = None \<and>
    (\<forall>i. \<exists>r. httpDo env i = DoResp r \<and> StatusCode r = 500) \<longrightarrow>
      map attempt (snd (makeRequest c env hasBody)) = [0, 1, 2] \<and>
      \<not> isRequestFailed (fst (makeRequest c env hasBody)) \<and>
      ((\<exists>body. fst (makeRequest c env hasBody) = Inl (HTTPError 500 body)) \<or>
       (\<exists>code message ty. fst (makeRequest c env hasBody) = Inl (ProviderError code message ty)))) \<and>
   (fst (makeRequest c env hasBody) = Inl (RequestFailed n e) \<longrightarrow>
      n = maxRetries c \<and> httpDo env (maxRetries c) = DoErr e)"
proof (intro conjI impI)
  assume a: "maxRetries c = 2 \<and> (hasBody \<longrightarrow> marshalErr env = None) \<and> newRequestErr env = None \<and>
    (\<forall>i. \<exists>r. httpDo env i = DoResp r \<and> StatusCode r = 500)"
  then obtain r0 r1 r2 where r:
    "httpDo env 0 = DoResp r0" "httpDo env 1 = DoResp r1" "httpDo env 2 = DoResp r2"
    "StatusCode r0 = 500" "StatusCode r1 = 500" "StatusCode r2 = 500"
    by metis
  note l = three_attempts_500[OF r]
  from a have m: "(if hasBody then marshalErr env else None) = None" by simp
  show "map attempt (snd (makeRequest c env hasBody)) = [0, 1, 2]"
    using a m l r by (simp add: makeRequest_def Let_def split: option.splits prod.splits)
  show "\<not> isRequestFailed (fst (makeRequest c env hasBody))"
    using a m l r
    by (simp add: makeRequest_def isRequestFailed_def Let_def split: option.splits prod.splits)
  show "(\<exists>body. fst (makeRequest c env hasBody) = Inl (HTTPError 500 body)) \<or>
       (\<exists>code message ty. fst (makeRequest c env hasBody) = Inl (ProviderError code message ty))"
    using a m l r
    by (cases "unmarshalError env []")
       (auto simp add: makeRequest_def Let_def split: option.splits prod.splits)
next
  assume "fst (makeRequest c env hasBody) = Inl (RequestFailed n e)"
  from makeRequest_RequestFailed[OF this]
  show "n = maxRetries c" and "httpDo env (maxRetries c) = DoErr e" by simp_all
qed

text \<open>
  The property of C1 on the vendor that always answers 500 and on the vendor that is
  never reached.
\<close>

theorem always_500_three_attempts_witness:
  "maxRetries (NewClient (sampleConfig 2)) = 2 \<and>
   marshalErr (sampleTransport always500) = None \<and>
   newRequestErr (sampleTransport always500) = None \<and>
   (\<forall>i. \<exists>r. httpDo (sampleTransport always500) i = DoResp r \<and> StatusCode r = 500) \<and>
   map attempt (snd (makeRequest (NewClient (sampleConfig 2)) (sampleTransport always500) True)) =
     [0, 1, 2] \<and>
   \<not> isRequestFailed (fst (makeRequest (NewClient (sampleConfig 2)) (sampleTransport always500) True)) \<and>
   fst (makeRequest (NewClient (sampleConfig 2)) (sampleTransport unreachable) True) =
     Inl (RequestFailed 2 ''dial tcp: i/o timeout'') \<and>
   httpDo (sampleTransport unreachable) (maxRetries (NewClient (sampleConfig 2))) =
     DoErr ''dial tcp: i/o timeout''"
proof -
  have h: "maxRetries (NewClient (sampleConfig 2)) = 2 \<and>
     (True \<longrightarrow> marshalErr (sampleTransport always500) = None) \<and>
     newRequestErr (sampleTransport always500) = None \<and>
     (\<forall>i. \<exists>r. httpDo (sampleTransport always500) i = DoResp r \<and> StatusCode r = 500)"
    by (simp add: NewClient_def sampleConfig_def sampleTransport_def always500_def)
  have g: "fst (makeRequest (NewClient (sampleConfig 2)) (sampleTransport unreachable) True) =
     Inl (RequestFailed 2 ''dial tcp: i/o timeout'')"
    by (simp add: makeRequest_def NewClient_def sampleConfig_def sampleTransport_def
        unreachable_def retryLoop.simps Let_def)
  note t1 = always_500_three_attempts[of "NewClient (sampleConfig 2)" True
      "sampleTransport always500", THEN conjunct1, THEN mp, OF h]
  note t2 = always_500_three_attempts[of "NewClient (sampleConfig 2)" True
      "sampleTransport unreachable" 2 "''dial tcp: i/o timeout''", THEN conjunct2, THEN mp, OF g]
  show ?thesis using h g t1 t2 by blast
qed

text \<open>
  Claim C1 as stated names \<open>RequestFailed\<close> as the final failure. With the client built
  from \<open>MaxRetries = 2\<close> and status 500 on every attempt, three attempts are made and
  the result is the \<open>API error\<close> with status 500.
\<close>

theorem always_500_is_not_RequestFailed:
  "fst (makeRequest (NewClient (sampleConfig 2)) (sampleTransport always500) True) =
     Inl (HTTPError 500 []) \<and>
   \<not> isRequestFailed (fst (makeRequest (NewClient (sampleConfig 2)) (sampleTransport always500) True)) \<and>
   map attempt (snd (makeRequest (NewClient (sampleConfig 2)) (sampleTransport always500) True)) =
     [0, 1, 2]"
  by (simp add: always500_run isRequestFailed_def)

lemma makeRequest_iterations:
  "snd (makeRequest c env hasBody) =
     (if (hasBody \<and> marshalErr env \<noteq> None) \<or> newRequestErr env \<noteq> None then []
      else iterations (retryLoop (httpDo env) (maxRetries c) 0
             \<lparr>resp = None, err = None, bodyClosed = False, iterations = []\<rparr>))"
  by (auto simp: makeRequest_def Let_def split: option.splits prod.splits)

lemma makeRequest_scheduled:
  "scheduled (httpDo env) (maxRetries c) 0 (snd (makeRequest c env hasBody))"
proof (cases "(hasBody \<and> marshalErr env \<noteq> None) \<or> newRequestErr env \<noteq> None")
  case True
  then have "snd (makeRequest c env hasBody) = []" by (simp only: makeRequest_iterations if_True)
  then show ?thesis by (simp add: scheduled_iff)
next
  case False
  let ?b = "\<lparr>resp = None, err = None, bodyClosed = False, iterations = []\<rparr>"
  have e: "snd (makeRequest c env hasBody) =
      iterations (retryLoop (httpDo env) (maxRetries c) 0 ?b)"
    using False by (simp only: makeRequest_iterations if_False)
  show ?thesis
  proof (cases "0 \<le> maxRetries c")
    case True
    from retryLoop_scheduled[OF True, of "httpDo env" ?b] e show ?thesis by simp
  next
    case neg: False
    then have "retryLoop (httpDo env) (maxRetries c) 0 ?b = ?b" by (rule retryLoop_skipped)
    with e show ?thesis by (simp add: scheduled_iff)
  qed
qed

text \<open>
  Claim C6. In every run of \<open>makeRequest\<close>, round \<open>k\<close> of the loop is attempt
  \<open>k\<close>; it is followed by another attempt exactly when it failed in the network or was
  answered with a status of 500 or more, and attempts remain (\<open>k < maxRetries\<close>); an
  attempt answered with a status below 500 is the last; and the sleep between attempt
  \<open>k\<close> and attempt \<open>k + 1\<close> is \<open>k + 1\<close> seconds. Attempts are made whenever the
  request could be built and \<open>maxRetries\<close> is not negative.
\<close>

theorem retry_iff_failed_linear_backoff:
  "(\<forall>k < length (snd (makeRequest c env hasBody)).
      attempt (snd (makeRequest c env hasBody) ! k) = int k \<and>
      (Suc k < length (snd (makeRequest c env hasBody)) \<longleftrightarrow>
         retryable (httpDo env (int k)) \<and> int k < maxRetries c) \<and>
      (\<forall>r. httpDo env (int k) = DoResp r \<and> StatusCode r < 500 \<longrightarrow>
         Suc k = length (snd (makeRequest c env hasBody))) \<and>
      slept (snd (makeRequest c env hasBody) ! k) =
        (if Suc k < length (snd (makeRequest c env hasBody))
         then Some ((int k + 1) * Second) else None)) \<and>
   ((hasBody \<longrightarrow> marshalErr env = None) \<and> newRequestErr env = None \<and> 0 \<le> maxRetries c \<longrightarrow>
      snd (makeRequest c env hasBody) \<noteq> [])"
proof (intro conjI allI impI)
  fix k assume k: "k < length (snd (makeRequest c env hasBody))"
  let ?its = "snd (makeRequest c env hasBody)"
  from makeRequest_scheduled[of env c hasBody] k have s:
    "attempt (?its ! k) = 0 + int k \<and>
     (Suc k < length ?its \<longleftrightarrow> retryable (httpDo env (0 + int k)) \<and> 0 + int k < maxRetries c) \<and>
     slept (?its ! k) = (if Suc k < length ?its then Some ((0 + int k + 1) * Second) else None)"
    unfolding scheduled_iff by blast
  show "attempt (?its ! k) = int k" using s by simp
  show "Suc k < length ?its \<longleftrightarrow> retryable (httpDo env (int k)) \<and> int k < maxRetries c"
    using s by simp
  show "slept (?its ! k) = (if Suc k < length ?its then Some ((int k + 1) * Second) else None)"
    using s by simp
  fix r assume "httpDo env (int k) = DoResp r \<and> StatusCode r < 500"
  then have "\<not> retryable (httpDo env (int k))" by (simp add: retryable_def)
  with s k show "Suc k = length ?its" by simp
next
  assume a: "(hasBody \<longrightarrow> marshalErr env = None) \<and> newRequestErr env = None \<and> 0 \<le> maxRetries c"
  let ?b = "\<lparr>resp = None, err = None, bodyClosed = False, iterations = []\<rparr>"
  from a have "snd (makeRequest c env hasBody) =
      iterations (retryLoop (httpDo env) (maxRetries c) 0 ?b)"
    by (auto simp: makeRequest_iterations)
  with retryLoop_scheduled[of 0 "maxRetries c" "httpDo env" ?b] a
  show "snd (makeRequest c env hasBody) \<noteq> []" by simp
qed

text \<open>
  The property of C6 on the vendor that fails, answers 503 and then 404.
\<close>

theorem retry_iff_failed_linear_backoff_witness:
  "snd (makeRequest (NewClient (sampleConfig 0)) (sampleTransport flaky) True) =
     [\<lparr>attempt = 0, closedBody = False, slept = Some (1 * Second)\<rparr>,
      \<lparr>attempt = 1, closedBody = True, slept = Some (2 * Second)\<rparr>,
      \<lparr>attempt = 2, closedBody = False, slept = None\<rparr>] \<and>
   retryable (flaky 0) \<and> retryable (flaky 1) \<and> \<not> retryable (flaky 2) \<and>
   maxRetries (NewClient (sampleConfig 0)) = 3 \<and>
   slept (snd (makeRequest (NewClient (sampleConfig 0)) (sampleTransport flaky) True) ! 1) =
     Some ((int 1 + 1) * Second)"
proof -
  let ?its = "snd (makeRequest (NewClient (sampleConfig 0)) (sampleTransport flaky) True)"
  have e: "?its =
     [\<lparr>attempt = 0, closedBody = False, slept = Some (1 * Second)\<rparr>,
      \<lparr>attempt = 1, closedBody = True, slept = Some (2 * Second)\<rparr>,
      \<lparr>attempt = 2, closedBody = False, slept = None\<rparr>]"
    by (simp add: flaky_run)
  have k: "1 < length ?its" and k2: "Suc 1 < length ?its" by (simp_all add: e)
  have r: "retryable (flaky 0) \<and> retryable (flaky 1) \<and> \<not> retryable (flaky 2)"
    by (simp add: retryable_def flaky_def)
  have m: "maxRetries (NewClient (sampleConfig 0)) = 3"
    by (simp add: NewClient_def sampleConfig_def)
  from retry_iff_failed_linear_backoff[of "NewClient (sampleConfig 0)" "sampleTransport flaky" True,
      THEN conjunct1, THEN spec, THEN mp, OF k] k2
  have "slept (?its ! 1) = Some ((int 1 + 1) * Second)" by (simp only: if_True)
  with e r m show ?thesis by (simp only:) simp
qed

lemma NewClient_maxRetries_pos: "0 \<le> MaxRetries config \<Longrightarrow> 0 < maxRetries (NewClient config)"
  by (simp add: NewClient_def Let_def)

text \<open>
  Claim C10. \<open>NewClient\<close> replaces an empty base URL by the default URL, a zero timeout
  by 30 seconds and zero retries by 3, and keeps every other value; so no client has
  \<open>maxRetries = 0\<close>, and a client built from a non-negative \<open>MaxRetries\<close> makes at
  least a second attempt after a first one that may be retried.
\<close>

theorem NewClient_defaults:
  "(BaseURL config = [] \<longrightarrow> baseURL (NewClient config) = ''https://api.openai.com/v1'') \<and>
   (BaseURL config \<noteq> [] \<longrightarrow> baseURL (NewClient config) = BaseURL config) \<and>
   (Timeout config = 0 \<longrightarrow> httpTimeout (NewClient config) = 30 * Second) \<and>
   (Timeout config \<noteq> 0 \<longrightarrow> httpTimeout (NewClient config) = Timeout config) \<and>
   (MaxRetries config = 0 \<longrightarrow> maxRetries (NewClient config) = 3) \<and>
   (MaxRetries config \<noteq> 0 \<longrightarrow> maxRetries (NewClient config) = MaxRetries config) \<and>
   apiKey (NewClient config) = APIKey config \<and>
   maxRetries (NewClient config) \<noteq> 0 \<and>
   (0 \<le> MaxRetries config \<and> (hasBody \<longrightarrow> marshalErr env = None) \<and>
    newRequestErr env = None \<and> retryable (httpDo env 0) \<longrightarrow>
      2 \<le> length (snd (makeRequest (NewClient config) env hasBody)))"
proof -
  have fields:
   "(BaseURL config = [] \<longrightarrow> baseURL (NewClient config) = ''https://api.openai.com/v1'') \<and>
    (BaseURL config \<noteq> [] \<longrightarrow> baseURL (NewClient config) = BaseURL config) \<and>
    (Timeout config = 0 \<longrightarrow> httpTimeout (NewClient config) = 30 * Second) \<and>
    (Timeout config \<noteq> 0 \<longrightarrow> httpTimeout (NewClient config) = Timeout config) \<and>
    (MaxRetries config = 0 \<longrightarrow> maxRetries (NewClient config) = 3) \<and>
    (MaxRetries config \<noteq> 0 \<longrightarrow> maxRetries (NewClient config) = MaxRetries config) \<and>
    apiKey (NewClient config) = APIKey config \<and>
    maxRetries (NewClient config) \<noteq> 0"
    by (simp add: NewClient_def DefaultBaseURL_def DefaultTimeout_def Let_def)
  have retry: "2 \<le> length (snd (makeRequest (NewClient config) env hasBody))"
    if a: "0 \<le> MaxRetries config \<and> (hasBody \<longrightarrow> marshalErr env = None) \<and>
           newRequestErr env = None \<and> retryable (httpDo env 0)"
  proof -
    let ?c = "NewClient config"
    let ?b = "\<lparr>resp = None, err = None, bodyClosed = False, iterations = []\<rparr>"
    let ?its = "snd (makeRequest ?c env hasBody)"
    from a have pos: "0 < maxRetries ?c" by (simp add: NewClient_maxRetries_pos)
    from a have e: "?its = iterations (retryLoop (httpDo env) (maxRetries ?c) 0 ?b)"
      by (auto simp: makeRequest_iterations)
    from pos retryLoop_scheduled[of 0 "maxRetries ?c" "httpDo env" ?b] e
    have ne: "?its \<noteq> []" by simp
    then have l0: "0 < length ?its" by simp
    from makeRequest_scheduled[of env ?c hasBody] l0
    have "Suc 0 < length ?its \<longleftrightarrow> retryable (httpDo env (0 + int 0)) \<and> 0 + int 0 < maxRetries ?c"
      unfolding scheduled_iff by blast
    with a pos show ?thesis by simp
  qed
  show ?thesis using fields retry by blast
qed

text \<open>
  The property of C10 on the configuration with all three fields zero.
\<close>

theorem NewClient_defaults_witness:
  "BaseURL (sampleConfig 0) = [] \<and> Timeout (sampleConfig 0) = 0 \<and> MaxRetries (sampleConfig 0) = 0 \<and>
   baseURL (NewClient (sampleConfig 0)) = ''https://api.openai.com/v1'' \<and>
   httpTimeout (NewClient (sampleConfig 0)) = 30 * Second \<and>
   maxRetries (NewClient (sampleConfig 0)) = 3 \<and>
   retryable (httpDo (sampleTransport flaky) 0) \<and>
   2 \<le> length (snd (makeRequest (NewClient (sampleConfig 0)) (sampleTransport flaky) True))"
proof -
  have h: "BaseURL (sampleConfig 0) = [] \<and> Timeout (sampleConfig 0) = 0 \<and>
           MaxRetries (sampleConfig 0) = 0"
    by (simp add: sampleConfig_def)
  have g: "0 \<le> MaxRetries (sampleConfig 0) \<and> (True \<longrightarrow> marshalErr (sampleTransport flaky) = None) \<and>
    newRequestErr (sampleTransport flaky) = None \<and> retryable (httpDo (sampleTransport flaky) 0)"
    by (simp add: sampleConfig_def sampleTransport_def flaky_def retryable_def)
  note t = NewClient_defaults[of "sampleConfig 0" True "sampleTransport flaky"]
  show ?thesis using h g t by blast
qed

section \<open>Properties of the service registry\<close>

lemma logStream_sent: "fst (logStream name n cs) = upToFirstTerminal cs"
  by (induction cs arbitrary: n)
     (auto simp: terminal_def case_prod_beta split: option.splits)

lemma upToFirstTerminal_id: "filter terminal (butlast cs) = [] \<Longrightarrow> upToFirstTerminal cs = cs"
  by (induction cs) (auto split: if_splits)

lemma streamGoroutine_butlast: "filter terminal (butlast (streamGoroutine unm ls scanErr)) = []"
proof -
  let ?st = "scanLoop unm initDecoder ls"
  note inv = scanLoop_init_chan[of unm ls]
  show ?thesis
  proof (cases "returned ?st")
    case True
    with inv show ?thesis by (simp add: streamGoroutine_def)
  next
    case False
    with inv have f: "filter terminal (responseChan ?st) = []" by simp
    show ?thesis using False f filter_butlast_empty[OF f]
      by (cases scanErr) (simp_all add: streamGoroutine_def send_def)
  qed
qed

lemma Service_ChatStream_found:
  "providers s name = Some p \<Longrightarrow>
   fst (Service_ChatStream s name req) =
     (case ChatStream p req of Inl e \<Rightarrow> Inl e | Inr cs \<Rightarrow> Inr (upToFirstTerminal cs))"
  by (simp add: Service_ChatStream_def GetProvider_def Let_def case_prod_beta logStream_sent
      split: sum.splits)

text \<open>
  Claim C7. For a registered provider, \<open>Service.ChatStream\<close> returns the provider's
  error unchanged, and otherwise a channel that delivers exactly the provider's chunks,
  in the same order and ending where they end: for every chunk sequence in which no
  chunk follows a terminal one, as the data model requires of a stream, and so for every
  sequence the OpenAI decoder produces. (The goroutine forwards up to and including the
  first terminal chunk, which is the whole of such a sequence.)
\<close>

theorem logged_stream_forwards_to_first_terminal:
  "(providers s name = Some p \<and> ChatStream p req = Inl e \<longrightarrow>
      fst (Service_ChatStream s name req) = Inl e) \<and>
   (providers s name = Some p \<and> ChatStream p req = Inr cs \<longrightarrow>
      fst (Service_ChatStream s name req) = Inr (upToFirstTerminal cs)) \<and>
   (providers s name = Some p \<and> ChatStream p req = Inr cs \<and>
    filter terminal (butlast cs) = [] \<longrightarrow>
      fst (Service_ChatStream s name req) = Inr cs) \<and>
   (providers s name = Some p \<and> ChatStream p req = Inr (streamGoroutine unm ls scanErr) \<longrightarrow>
      fst (Service_ChatStream s name req) = Inr (streamGoroutine unm ls scanErr))"
  using upToFirstTerminal_id[of cs]
    upToFirstTerminal_id[OF streamGoroutine_butlast[of unm ls scanErr]]
  by (auto simp: Service_ChatStream_found)

text \<open>
  The property of C7 on a provider whose streaming call fails and on the provider that
  streams the scenario's body.
\<close>

theorem logged_stream_forwards_to_first_terminal_witness:
  "providers (fst (RegisterProvider NewService ''failing'' failingProvider)) ''failing'' =
     Some failingProvider \<and>
   ChatStream failingProvider sampleRequest = Inl (HTTPError 401 ''unauthorized'') \<and>
   fst (Service_ChatStream (fst (RegisterProvider NewService ''failing'' failingProvider))
          ''failing'' sampleRequest) = Inl (HTTPError 401 ''unauthorized'') \<and>
   providers (fst (RegisterProvider NewService ''openai'' scenarioProvider)) ''openai'' =
     Some scenarioProvider \<and>
   ChatStream scenarioProvider sampleRequest =
     Inr (streamGoroutine sampleUnmarshal [''data: '' @ helloFrame, [], ''data: [DONE]'', []] None) \<and>
   filter terminal (butlast
     (streamGoroutine sampleUnmarshal [''data: '' @ helloFrame, [], ''data: [DONE]'', []] None)) = [] \<and>
   fst (Service_ChatStream (fst (RegisterProvider NewService ''openai'' scenarioProvider))
          ''openai'' sampleRequest) =
     Inr (streamGoroutine sampleUnmarshal [''data: '' @ helloFrame, [], ''data: [DONE]'', []] None) \<and>
   fst (Service_ChatStream (fst (RegisterProvider NewService ''openai'' scenarioProvider))
          ''openai'' sampleRequest) =
     Inr (upToFirstTerminal
       (streamGoroutine sampleUnmarshal [''data: '' @ helloFrame, [], ''data: [DONE]'', []] None))"
proof -
  let ?cs = "streamGoroutine sampleUnmarshal [''data: '' @ helloFrame, [], ''data: [DONE]'', []] None"
  let ?sf = "fst (RegisterProvider NewService ''failing'' failingProvider)"
  let ?so = "fst (RegisterProvider NewService ''openai'' scenarioProvider)"
  have a: "providers ?sf ''failing'' = Some failingProvider \<and>
           ChatStream failingProvider sampleRequest = Inl (HTTPError 401 ''unauthorized'')"
    by (simp add: RegisterProvider_def failingProvider_def)
  have b: "providers ?so ''openai'' = Some scenarioProvider \<and>
           ChatStream scenarioProvider sampleRequest = Inr ?cs"
    by (simp add: RegisterProvider_def scenarioProvider_def)
  have c: "filter terminal (butlast ?cs) = []"
    by (simp add: run_decoder)
  note t1 = logged_stream_forwards_to_first_terminal[of ?sf "''failing''" failingProvider
      sampleRequest "HTTPError 401 ''unauthorized''", THEN conjunct1, THEN mp, OF a]
  note t = logged_stream_forwards_to_first_terminal[of ?so "''openai''" scenarioProvider
      sampleRequest _ ?cs sampleUnmarshal "[''data: '' @ helloFrame, [], ''data: [DONE]'', []]" None]
  note t2 = t[THEN conjunct2, THEN conjunct1, THEN mp, OF b]
  note t3 = t[THEN conjunct2, THEN conjunct2, THEN conjunct1, THEN mp, OF conjI[OF conjunct1[OF b] conjI[OF conjunct2[OF b] c]]]
  show ?thesis using a b c t1 t2 t3 by blast
qed

lemma providers_registerAll:
  "name \<notin> fst ` set regs \<Longrightarrow> providers (registerAll s regs) name = providers s name"
proof (induction regs arbitrary: s)
  case Nil
  then show ?case by simp
next
  case (Cons reg regs)
  obtain n p where reg: "reg = (n, p)" by (cases reg)
  with Cons.prems have ne: "n \<noteq> name" and rest: "name \<notin> fst ` set regs" by auto
  from Cons.IH[OF rest, of "fst (RegisterProvider s n p)"] ne reg
  show ?case by (simp add: RegisterProvider_def)
qed

text \<open>
  Claim C8. For a name that no registration since \<open>NewService\<close> has used,
  \<open>GetProvider\<close> fails with the not-found error for that name, and \<open>Service.Chat\<close>
  and \<open>Service.ChatStream\<close> return the same error having logged nothing and called no
  provider method.
\<close>

theorem unregistered_provider_not_found:
  "name \<notin> fst ` set regs \<longrightarrow>
     GetProvider (registerAll NewService regs) name = Inl (NotFound name) \<and>
     Service_Chat (registerAll NewService regs) name req = (Inl (NotFound name), []) \<and>
     Service_ChatStream (registerAll NewService regs) name req = (Inl (NotFound name), [])"
proof
  assume "name \<notin> fst ` set regs"
  from providers_registerAll[OF this, of NewService]
  have g: "GetProvider (registerAll NewService regs) name = Inl (NotFound name)"
    by (simp add: GetProvider_def NewService_def)
  then show "GetProvider (registerAll NewService regs) name = Inl (NotFound name) \<and>
     Service_Chat (registerAll NewService regs) name req = (Inl (NotFound name), []) \<and>
     Service_ChatStream (registerAll NewService regs) name req = (Inl (NotFound name), [])"
    by (simp add: Service_Chat_def Service_ChatStream_def)
qed

text \<open>
  The property of C8 on a registry that holds \<open>openai\<close> only, asked for \<open>claude\<close>.
\<close>

theorem unregistered_provider_not_found_witness:
  "''claude'' \<notin> fst ` set [(''openai'', scenarioProvider)] \<and>
   GetProvider (registerAll NewService [(''openai'', scenarioProvider)]) ''claude'' =
     Inl (NotFound ''claude'') \<and>
   Service_Chat (registerAll NewService [(''openai'', scenarioProvider)]) ''claude'' sampleRequest =
     (Inl (NotFound ''claude''), []) \<and>
   Service_ChatStream (registerAll NewService [(''openai'', scenarioProvider)]) ''claude'' sampleRequest =
     (Inl (NotFound ''claude''), [])"
proof -
  have h: "''claude'' \<notin> fst ` set [(''openai'', scenarioProvider)]" by simp
  from unregistered_provider_not_found[of "''claude''" "[(''openai'', scenarioProvider)]" sampleRequest,
      THEN mp, OF h] h
  show ?thesis by blast
qed

end
